theory Spec2Isabelle
  imports Complex_Main "HOL-Library.Sublist"
begin

section \<open>Strings and decimal numerals\<close>

text \<open>
  Python strings are modelled as \<open>string\<close>: lists of characters with code points below
  256. On these code points the class \<open>\d\<close> of the \<open>re\<close> module is exactly the ten
  characters \<open>0\<close> to \<open>9\<close>, and \<open>str.isspace\<close> holds of the code points listed in
  \<open>py_isspace\<close>.
\<close>

definition is_digit :: "char \<Rightarrow> bool" where
  "is_digit c = (48 \<le> (of_char c :: nat) \<and> (of_char c :: nat) \<le> 57)"

definition digit_val :: "char \<Rightarrow> nat" where
  "digit_val c = of_char c - 48"

definition digit_char :: "nat \<Rightarrow> char" where
  "digit_char d = char_of (48 + d)"

text \<open>The number a string of decimal digits denotes, most significant digit first.\<close>

definition dec_val :: "string \<Rightarrow> nat" where
  "dec_val ds = foldl (\<lambda>a c. 10 * a + digit_val c) 0 ds"

text \<open>\<open>str(n)\<close> of a non-negative integer: its decimal digits, no leading zero.\<close>

fun str_nat :: "nat \<Rightarrow> string" where
  "str_nat n = (if n < 10 then [digit_char n] else str_nat (n div 10) @ [digit_char (n mod 10)])"

declare str_nat.simps [simp del]

text \<open>\<open>str(i)\<close> of an integer, as the f-strings of the program render it.\<close>

definition str_int :: "int \<Rightarrow> string" where
  "str_int i = (if i < 0 then CHR ''-'' # str_nat (nat (- i)) else str_nat (nat i))"

text \<open>
  The format specification \<open>02d\<close>: the decimal rendering, padded with zeros on the left
  (after the sign) to a total width of at least two.
\<close>

definition fmt_02d :: "int \<Rightarrow> string" where
  "fmt_02d i =
     (if i < 0 then CHR ''-'' # str_nat (nat (- i))
      else replicate (2 - length (str_nat (nat i))) CHR ''0'' @ str_nat (nat i))"

section \<open>Exceptions\<close>

text \<open>
  The exceptions that the program raises or handles. \<open>UnicodeDecodeError\<close> is a subclass
  of \<open>ValueError\<close>; \<open>SystemExit\<close> and \<open>KeyboardInterrupt\<close> are not subclasses of
  \<open>Exception\<close>. Each carries what \<open>str(e)\<close> or the exit status needs.
\<close>

datatype exn =
    ValueError string
  | UnicodeDecodeError string
  | KeyboardInterrupt
  | SystemExit int
  | OtherError string

section \<open>The duration parser\<close>

subsection \<open>The regular expression\<close>

text \<open>
  The fragment of Python's regular expressions that the pattern of \<open>parse_time\<close> uses:
  \<open>^\<close>, \<open>$\<close>, a literal character, \<open>\d+\<close>, a named group \<open>(?P<name>...)\<close>, an unnamed
  group \<open>(...)\<close>, the greedy option \<open>?\<close>, and concatenation.
\<close>

datatype regex =
    Bol
  | Eol
  | Lit char
  | DigitPlus
  | NGroup string regex
  | UGroup regex
  | Opt regex
  | Seq regex regex

text \<open>
  A state of the matcher: the text consumed so far, the text still to be matched, and the
  named groups captured so far (latest first).
\<close>

type_synonym mstate = "string \<times> string \<times> (string \<times> string) list"

text \<open>
  The ways \<open>\d+\<close> matches at the start of a string, in the order in which the greedy
  backtracking matcher tries them (longest first): each is the digits matched and the rest.
\<close>

fun plus_digit :: "string \<Rightarrow> (string \<times> string) list" where
  "plus_digit [] = []"
| "plus_digit (c # cs) =
     (if is_digit c then map (\<lambda>(m, r). (c # m, r)) (plus_digit cs) @ [([c], cs)] else [])"

text \<open>
  The backtracking matcher as a list of successes, in the order in which \<open>re\<close> explores
  them. Without the \<open>MULTILINE\<close> flag, \<open>^\<close> matches at the start of the string only and
  \<open>$\<close> matches at the end of the string and just before a newline that ends the string.
  An unnamed group captures by number only, which \<open>groupdict\<close> does not report.
\<close>

fun rmatch :: "regex \<Rightarrow> mstate \<Rightarrow> mstate list" where
  "rmatch Bol (pre, rest, g) = (if pre = [] then [(pre, rest, g)] else [])"
| "rmatch Eol (pre, rest, g) = (if rest = [] \<or> rest = [CHR 0x0A] then [(pre, rest, g)] else [])"
| "rmatch (Lit c) (pre, rest, g) =
     (case rest of [] \<Rightarrow> [] | x # xs \<Rightarrow> if x = c then [(pre @ [x], xs, g)] else [])"
| "rmatch DigitPlus (pre, rest, g) = map (\<lambda>(m, r). (pre @ m, r, g)) (plus_digit rest)"
| "rmatch (NGroup n r) (pre, rest, g) =
     map (\<lambda>(pre', rest', g'). (pre', rest', (n, drop (length pre) pre') # g'))
       (rmatch r (pre, rest, g))"
| "rmatch (UGroup r) st = rmatch r st"
| "rmatch (Opt r) st = rmatch r st @ [st]"
| "rmatch (Seq a b) st = concat (map (rmatch b) (rmatch a st))"

text \<open>
  \<open>re.match(pattern, s)\<close>: the first success from the start of the string, or \<open>None\<close>.
  The result holds \<open>group(0)\<close>, the text matched, and the named groups.
\<close>

definition re_match :: "regex \<Rightarrow> string \<Rightarrow> (string \<times> (string \<times> string) list) option" where
  "re_match r s = (case rmatch r ([], s, []) of [] \<Rightarrow> None | (pre, rest, g) # _ \<Rightarrow> Some (pre, g))"

text \<open>\<open>((?P<name>\d+)c)?\<close>\<close>

definition opt_part :: "string \<Rightarrow> char \<Rightarrow> regex" where
  "opt_part name c = Opt (UGroup (Seq (NGroup name DigitPlus) (Lit c)))"

text \<open>\<open>^((?P<hours>\d+)h)?((?P<minutes>\d+)m)?((?P<seconds>\d+)s)?$\<close>\<close>

definition time_pattern :: regex where
  "time_pattern =
     Seq Bol (Seq (opt_part ''hours'' CHR ''h'')
       (Seq (opt_part ''minutes'' CHR ''m'')
         (Seq (opt_part ''seconds'' CHR ''s'') Eol)))"

subsection \<open>\<open>parse_time\<close>\<close>

text \<open>
  \<open>int(s)\<close> on the strings that reach it here: a non-empty string of decimal digits denotes
  its value, of any magnitude (the interpreter's configurable limit on the length of a
  converted numeral is not modelled). Any other string is taken to raise; the literals
  with signs, blanks or underscores that \<open>int\<close> also accepts never reach it, since the
  groups of the pattern hold digits only (lemma \<open>group_list_values\<close> below).
\<close>

definition py_int :: "string \<Rightarrow> exn + int" where
  "py_int s =
     (if s \<noteq> [] \<and> list_all is_digit s then Inr (int (dec_val s))
      else Inl (ValueError (''invalid literal for int() with base 10: '' @ [CHR 0x27] @ s @ [CHR 0x27])))"

text \<open>\<open>int(x or 0)\<close> for \<open>x\<close> the value of a group: \<open>None\<close> and the empty string are falsy.\<close>

definition int_or_zero :: "string option \<Rightarrow> exn + int" where
  "int_or_zero x = (case x of None \<Rightarrow> Inr 0 | Some s \<Rightarrow> if s = [] then Inr 0 else py_int s)"

definition msg_format :: "string \<Rightarrow> string" where
  "msg_format time_str =
     ''Invalid time format: '' @ [CHR 0x27] @ time_str @ [CHR 0x27]
       @ ''. Use formats like '' @ [CHR 0x27] @ ''1h30m'' @ [CHR 0x27] @ '', ''
       @ [CHR 0x27] @ ''90m'' @ [CHR 0x27] @ '', '' @ [CHR 0x27] @ ''180s'' @ [CHR 0x27] @ ''.''"

definition msg_no_units :: "string \<Rightarrow> string" where
  "msg_no_units time_str =
     ''Invalid time format: '' @ [CHR 0x27] @ time_str @ [CHR 0x27]
       @ ''. No time units (h, m, s) found.''"

definition msg_positive :: string where
  "msg_positive = ''Total duration must be positive.''"

definition parse_time :: "string \<Rightarrow> exn + int" where
  "parse_time time_str =
     (case re_match time_pattern time_str of
        None \<Rightarrow> Inl (ValueError (msg_format time_str))
      | Some (g0, time_parts) \<Rightarrow>
          if g0 = [] then Inl (ValueError (msg_format time_str))
          else
            (case int_or_zero (map_of time_parts ''hours'') of
               Inl e \<Rightarrow> Inl e
             | Inr hours \<Rightarrow>
            (case int_or_zero (map_of time_parts ''minutes'') of
               Inl e \<Rightarrow> Inl e
             | Inr minutes \<Rightarrow>
            (case int_or_zero (map_of time_parts ''seconds'') of
               Inl e \<Rightarrow> Inl e
             | Inr seconds \<Rightarrow>
                 (let total_seconds = 0 + hours * 3600 + minutes * 60 + seconds in
                  if total_seconds \<le> 0 then
                    (if hours = 0 \<and> minutes = 0 \<and> seconds = 0
                     then Inl (ValueError (msg_no_units time_str))
                     else Inl (ValueError msg_positive))
                  else Inr total_seconds)))))"

section \<open>The environment and the observable effects\<close>

text \<open>
  What \<open>e.stderr.decode()\<close> does with the bytes a failed child wrote to its standard
  error: it returns their text, or, when the bytes are not valid UTF-8, raises
  \<open>UnicodeDecodeError\<close> (whose \<open>str\<close> is carried along).
\<close>

datatype decoded = Text string | Undecodable string

text \<open>
  The outcome of one \<open>subprocess.run(['afplay', sound_file], check=True, capture_output=True)\<close>:
  the child exits with status 0; the command does not exist (\<open>FileNotFoundError\<close>); the
  child exits with another status (\<open>CalledProcessError\<close>, with its \<open>str\<close> and its
  captured standard error); the user interrupts the wait (\<open>KeyboardInterrupt\<close>); or any
  other \<open>Exception\<close> is raised (with its \<open>str\<close>).
\<close>

datatype run_result =
    Completed
  | NotFound
  | Failed string decoded
  | Interrupted
  | Crashed string

text \<open>
  The environment of one run of the program: the value of \<open>time.time()\<close> when
  \<open>countdown\<close> is entered, its value at pass \<open>i\<close> of the loop, whether the user
  interrupts the \<open>time.sleep\<close> of pass \<open>i\<close>, and the outcome of call \<open>i\<close> of
  \<open>afplay\<close>, all counted from 0. Times are real numbers: the rounding of floating-point
  arithmetic and the \<open>OverflowError\<close> of converting an integer beyond the range of a
  float are not modelled.
\<close>

record world =
  start_time :: real
  tick_time :: "nat \<Rightarrow> real"
  sleep_interrupted :: "nat \<Rightarrow> bool"
  afplay :: "nat \<Rightarrow> run_result"

text \<open>
  The effects of a run, in order: \<open>print(text, end=e)\<close>, \<open>sys.stdout.flush()\<close>,
  \<open>time.sleep(n)\<close>, the start of a child process with the given arguments, the end of the
  child that was started last (\<open>subprocess.run\<close> has waited for it), and
  \<open>parser.print_usage()\<close>.
\<close>

datatype event =
    Print string string
  | Flush
  | Sleep int
  | Call "string list"
  | Done
  | Usage

definition nl :: string where
  "nl = [CHR 0x0A]"

definition cr :: string where
  "cr = [CHR 0x0D]"

definition quote :: string where
  "quote = [CHR 0x27]"

section \<open>The countdown\<close>

text \<open>\<open>round(x)\<close> of a float: the nearest integer, a tie going to the even one.\<close>

definition py_round :: "real \<Rightarrow> int" where
  "py_round x =
     (let f = \<lfloor>x\<rfloor>; d = x - of_int f
      in if d < 1 / 2 then f else if 1 / 2 < d then f + 1 else if even f then f else f + 1)"

text \<open>The text \<open>time_str\<close> that one pass of the loop builds from \<open>remaining\<close>.\<close>

definition format_remaining :: "int \<Rightarrow> string" where
  "format_remaining remaining =
     (let hours_rem = remaining div 3600;
          mins_rem = (remaining mod 3600) div 60;
          secs_rem = remaining mod 60
      in fmt_02d hours_rem @ '':'' @ fmt_02d mins_rem @ '':'' @ fmt_02d secs_rem)"

text \<open>
  The \<open>while True\<close> loop of \<open>countdown\<close> inside its \<open>try\<close>, from pass \<open>i\<close> on, with the
  effects so far. It yields the effects and either a normal return or the \<open>SystemExit\<close>
  that \<open>sys.exit(0)\<close> raises in the handler of \<open>KeyboardInterrupt\<close>. The loop has no bound
  of its own: whether it ends depends on the clock, so the result is an option and
  \<open>None\<close> stands for a loop that never ends.
\<close>

partial_function (option) countdown_loop ::
  "world \<Rightarrow> real \<Rightarrow> nat \<Rightarrow> event list \<Rightarrow> (event list \<times> (exn + unit)) option" where
  "countdown_loop w end_time i tr =
     (let remaining = py_round (end_time - tick_time w i)
      in if remaining \<le> 0 then Some (tr @ [Print (nl @ ''Time's up!'') nl], Inr ())
         else
           (let time_str = format_remaining remaining;
                tr' = tr @ [Print (''Time remaining: '' @ time_str) cr, Flush,
                            Sleep (min 1 remaining)]
            in if sleep_interrupted w i
               then Some (tr' @ [Print (nl @ ''Timer cancelled by user.'') nl],
                          Inl (SystemExit 0))
               else countdown_loop w end_time (Suc i) tr'))"

declare countdown_loop.simps [code]

definition countdown :: "world \<Rightarrow> int \<Rightarrow> (event list \<times> (exn + unit)) option" where
  "countdown w seconds =
     (let end_time = start_time w + real_of_int seconds
      in countdown_loop w end_time 0
           [Print (''Timer set for '' @ str_int seconds @ '' seconds.'') nl])"

section \<open>The notifier\<close>

text \<open>\<open>str.isspace\<close> on the code points below 256, and \<open>str.strip()\<close>.\<close>

definition py_isspace :: "char \<Rightarrow> bool" where
  "py_isspace c =
     (let k = (of_char c :: nat)
      in (9 \<le> k \<and> k \<le> 13) \<or> (28 \<le> k \<and> k \<le> 32) \<or> k = 133 \<or> k = 160)"

definition strip :: "string \<Rightarrow> string" where
  "strip s = rev (dropWhile py_isspace (rev (dropWhile py_isspace s)))"

definition sound_file :: string where
  "sound_file = ''/System/Library/Sounds/Ping.aiff''"

definition afplay_cmd :: "string list" where
  "afplay_cmd = [''afplay'', sound_file]"

text \<open>
  The \<open>for\<close> loop of \<open>play_sound_macos\<close> over the indices still to come. A \<open>break\<close> ends
  it with a normal return; \<open>sys.exit(0)\<close> and an exception raised inside a handler (the
  \<open>decode\<close> of the handler of \<open>CalledProcessError\<close>) leave the function.
\<close>

fun play_loop :: "world \<Rightarrow> int list \<Rightarrow> event list \<times> (exn + unit)" where
  "play_loop w [] = ([], Inr ())"
| "play_loop w (i # rest) =
     (case afplay w (nat i) of
        Completed \<Rightarrow>
          (case play_loop w rest of (tr, r) \<Rightarrow> ([Call afplay_cmd, Done] @ tr, r))
      | NotFound \<Rightarrow>
          ([Call afplay_cmd,
            Print (''Error: '' @ quote @ ''afplay'' @ quote
                     @ '' command not found. Is this a macOS system?'') nl],
           Inr ())
      | Failed e err \<Rightarrow>
          (let tr = [Call afplay_cmd, Done,
                     Print (''Error playing sound (iteration '' @ str_int (i + 1) @ ''): '' @ e) nl]
           in case err of
                Text t \<Rightarrow> (tr @ [Print (''Stderr: '' @ strip t) nl], Inr ())
              | Undecodable m \<Rightarrow> (tr, Inl (UnicodeDecodeError m)))
      | Interrupted \<Rightarrow>
          ([Call afplay_cmd, Done, Print (nl @ ''Sound playback interrupted by user.'') nl],
           Inl (SystemExit 0))
      | Crashed e \<Rightarrow>
          ([Call afplay_cmd,
            Print (''An unexpected error occurred during sound playback (iteration ''
                     @ str_int (i + 1) @ ''): '' @ e) nl],
           Inr ()))"

definition play_sound_macos :: "world \<Rightarrow> int \<Rightarrow> event list \<times> (exn + unit)" where
  "play_sound_macos w repeat_count =
     (let tr0 = [Print (''Playing sound '' @ quote @ sound_file @ quote @ '' ''
                          @ str_int repeat_count @ '' times.'') nl]
      in case play_loop w [0..repeat_count - 1] of
           (tr, Inr u) \<Rightarrow> (tr0 @ tr @ [Print ''Finished playing sound.'' nl], Inr ())
         | (tr, Inl e) \<Rightarrow> (tr0 @ tr, Inl e))"

section \<open>The program\<close>

text \<open>
  The body of the \<open>try\<close> statement of the script, for the string \<open>args.duration\<close> that
  \<open>argparse\<close> delivers.
\<close>

definition body :: "string \<Rightarrow> world \<Rightarrow> (event list \<times> (exn + unit)) option" where
  "body duration w =
     (case parse_time duration of
        Inl e \<Rightarrow> Some ([], Inl e)
      | Inr total_seconds \<Rightarrow>
          (case countdown w total_seconds of
             None \<Rightarrow> None
           | Some (tr1, Inl e) \<Rightarrow> Some (tr1, Inl e)
           | Some (tr1, Inr u) \<Rightarrow>
               (case play_sound_macos w 10 of (tr2, r) \<Rightarrow> Some (tr1 @ tr2, r))))"

text \<open>
  The \<open>except\<close> clauses of the script in their order, and the exit status that results:
  \<open>ValueError\<close> with its subclasses, \<open>KeyboardInterrupt\<close>, any other \<open>Exception\<close>.
  \<open>SystemExit\<close> is none of these and ends the process with the status it carries.
\<close>

fun handle :: "exn \<Rightarrow> event list \<times> int" where
  "handle (ValueError m) = ([Print (''Error: '' @ m) nl, Usage], 1)"
| "handle (UnicodeDecodeError m) = ([Print (''Error: '' @ m) nl, Usage], 1)"
| "handle KeyboardInterrupt = ([Print (nl @ ''Timer script interrupted by user.'') nl], 0)"
| "handle (OtherError m) = ([Print (''An unexpected error occurred: '' @ m) nl], 1)"
| "handle (SystemExit status) = ([], status)"

text \<open>A run of the script: its effects and the exit status of the process.\<close>

definition main :: "string \<Rightarrow> world \<Rightarrow> (event list \<times> int) option" where
  "main duration w =
     (case body duration w of
        None \<Rightarrow> None
      | Some (tr, Inr u) \<Rightarrow> Some (tr, 0)
      | Some (tr, Inl e) \<Rightarrow> (case handle e of (tr', status) \<Rightarrow> Some (tr @ tr', status)))"

section \<open>Sample environments\<close>

text \<open>
  An environment in which the clock advances by exactly one second from one pass of the
  loop to the next, nobody interrupts, and every playback succeeds.
\<close>

definition steady :: world where
  "steady = \<lparr>start_time = 0, tick_time = (\<lambda>i. real i), sleep_interrupted = (\<lambda>i. False),
              afplay = (\<lambda>i. Completed)\<rparr>"

text \<open>The same, with the user interrupting the second \<open>time.sleep\<close>.\<close>

definition ctrl_c_in_sleep :: world where
  "ctrl_c_in_sleep = steady\<lparr>sleep_interrupted := (\<lambda>i. i = 1)\<rparr>"

text \<open>The same, with the user interrupting the third playback.\<close>

definition ctrl_c_in_play :: world where
  "ctrl_c_in_play = steady\<lparr>afplay := (\<lambda>i. if i = 2 then Interrupted else Completed)\<rparr>"

text \<open>
  The same, with the third \<open>afplay\<close> exiting with status 1 after writing the single byte
  \<open>0xff\<close>, which is not valid UTF-8, to its standard error: the texts are \<open>str(e)\<close> of
  the \<open>CalledProcessError\<close> and of the \<open>UnicodeDecodeError\<close> that \<open>decode\<close> raises.
\<close>

definition exit_status_text :: string where
  "exit_status_text =
     ''Command '' @ quote @ ''['' @ quote @ ''afplay'' @ quote @ '', '' @ quote @ sound_file @ quote
       @ '']'' @ quote @ '' returned non-zero exit status 1.''"

definition decode_text :: string where
  "decode_text =
     quote @ ''utf-8'' @ quote @ '' codec can'' @ quote
       @ ''t decode byte 0xff in position 0: invalid start byte''"

definition garbled :: world where
  "garbled = steady\<lparr>afplay := (\<lambda>i. if i = 2 then Failed exit_status_text (Undecodable decode_text)
                                     else Completed)\<rparr>"

section \<open>Notions for the statements and the proofs\<close>

text \<open>
  A duration string as the specification describes it: an optional hours part, an
  optional minutes part and an optional seconds part, in this order and with nothing in
  between, each a non-empty string of decimal digits followed by its unit letter.
\<close>

definition digits :: "string \<Rightarrow> bool" where
  "digits ds = (ds \<noteq> [] \<and> list_all is_digit ds)"

definition part :: "string option \<Rightarrow> char \<Rightarrow> string" where
  "part d c = (case d of None \<Rightarrow> [] | Some ds \<Rightarrow> ds @ [c])"

definition duration_string :: "string option \<Rightarrow> string option \<Rightarrow> string option \<Rightarrow> string" where
  "duration_string h m s = part h CHR ''h'' @ part m CHR ''m'' @ part s CHR ''s''"

definition part_ok :: "string option \<Rightarrow> bool" where
  "part_ok d = (case d of None \<Rightarrow> True | Some ds \<Rightarrow> digits ds)"

text \<open>The number that a part stands for: the value of its digits, or 0 when it is absent.\<close>

definition part_val :: "string option \<Rightarrow> int" where
  "part_val d = (case d of None \<Rightarrow> 0 | Some ds \<Rightarrow> int (dec_val ds))"

text \<open>
  One step of a deterministic reading of the pattern, used to analyse the matcher: take
  the longest run of digits and the unit letter after it, if both are there.
\<close>

definition take_part :: "string \<Rightarrow> char \<Rightarrow> mstate \<Rightarrow> mstate" where
  "take_part name c st =
     (case st of (pre, rest, g) \<Rightarrow>
        (let ds = takeWhile is_digit rest; r = dropWhile is_digit rest
         in if ds \<noteq> [] \<and> r \<noteq> [] \<and> hd r = c then (pre @ ds @ [c], tl r, (name, ds) # g) else st))"

definition take_parts :: "string \<Rightarrow> mstate" where
  "take_parts s =
     take_part ''seconds'' CHR ''s''
       (take_part ''minutes'' CHR ''m'' (take_part ''hours'' CHR ''h'' ([], s, [])))"

text \<open>The named groups that a part leaves in the state of the matcher.\<close>

definition group_list :: "string \<Rightarrow> string option \<Rightarrow> (string \<times> string) list" where
  "group_list name d = (case d of None \<Rightarrow> [] | Some ds \<Rightarrow> [(name, ds)])"

section \<open>The matcher on the pattern of \<open>parse_time\<close>\<close>


lemma plus_digit_then:
  assumes "\<not> is_digit c"
  shows "concat (map (\<lambda>(m, r). if r \<noteq> [] \<and> hd r = c then [f m r] else []) (plus_digit rest)) =
         (if takeWhile is_digit rest \<noteq> [] \<and> dropWhile is_digit rest \<noteq> [] \<and> hd (dropWhile is_digit rest) = c
          then [f (takeWhile is_digit rest) (dropWhile is_digit rest)] else [])"
  using assms
proof (induction rest arbitrary: f)
  case Nil
  then show ?case by simp
next
  case (Cons x xs)
  show ?case
  proof (cases "is_digit x")
    case False
    then show ?thesis by simp
  next
    case True
    have "concat (map (\<lambda>(m, r). if r \<noteq> [] \<and> hd r = c then [f m r] else []) (plus_digit (x # xs)))
        = concat (map (\<lambda>(m, r). if r \<noteq> [] \<and> hd r = c then [(\<lambda>m. f (x # m)) m r] else []) (plus_digit xs))
          @ (if xs \<noteq> [] \<and> hd xs = c then [f [x] xs] else [])"
      using True by (simp add: comp_def case_prod_unfold cong: if_cong)
    also have "\<dots> = (if takeWhile is_digit (x # xs) \<noteq> [] \<and> dropWhile is_digit (x # xs) \<noteq> []
                        \<and> hd (dropWhile is_digit (x # xs)) = c
          then [f (takeWhile is_digit (x # xs)) (dropWhile is_digit (x # xs))] else [])"
      unfolding Cons.IH [OF Cons.prems]
      using True Cons.prems by (cases xs) auto
    finally show ?thesis .
  qed
qed

lemma rmatch_Lit: "rmatch (Lit c) (p, r, g) = (if r \<noteq> [] \<and> hd r = c then [(p @ [c], tl r, g)] else [])"
  by (cases r) auto

lemma rmatch_part:
  assumes "\<not> is_digit c"
  shows "rmatch (Seq (NGroup n DigitPlus) (Lit c)) (pre, rest, g) =
         (if take_part n c (pre, rest, g) \<noteq> (pre, rest, g) then [take_part n c (pre, rest, g)] else [])"
proof -
  have "rmatch (Seq (NGroup n DigitPlus) (Lit c)) (pre, rest, g) =
        concat (map (\<lambda>(m, r). if r \<noteq> [] \<and> hd r = c then [(\<lambda>m r. (pre @ m @ [c], tl r, (n, m) # g)) m r] else [])
           (plus_digit rest))"
    by (simp add: comp_def case_prod_unfold rmatch_Lit del: rmatch.simps(3) cong: if_cong)
  then show ?thesis
    unfolding plus_digit_then [OF assms]
    by (simp add: take_part_def Let_def)
qed

lemma rmatch_opt_part:
  assumes "\<not> is_digit c"
  shows "rmatch (opt_part n c) st =
         (if take_part n c st \<noteq> st then [take_part n c st, st] else [st])"
  using rmatch_part [OF assms] by (cases st) (simp add: opt_part_def)


lemma is_digit_simps [simp]:
  "\<not> is_digit CHR ''h''" "\<not> is_digit CHR ''m''" "\<not> is_digit CHR ''s''" "\<not> is_digit (CHR 0x0A)"
  by (simp_all add: is_digit_def)

lemma take_part_eol:
  assumes "\<not> is_digit c" and "take_part n c st \<noteq> st"
  shows "rmatch Eol st = []"
proof -
  obtain pre rest g where st: "st = (pre, rest, g)" by (cases st)
  from assms(2) have "takeWhile is_digit rest \<noteq> []"
    by (auto simp: st take_part_def Let_def split: if_splits)
  then obtain x xs where "rest = x # xs" and "is_digit x"
    by (cases rest) (auto split: if_splits)
  then show ?thesis
    by (auto simp: st)
qed

lemma take_part_other:
  assumes "take_part n c st \<noteq> st" and "c' \<noteq> c"
  shows "take_part n' c' st = st"
  using assms by (cases st) (auto simp: take_part_def Let_def split: if_splits)

lemma seq_opt_part:
  assumes "\<not> is_digit c" and "take_part n c st = st \<or> rmatch b st = []"
  shows "rmatch (Seq (opt_part n c) b) st = rmatch b (take_part n c st)"
  using assms(2) by (auto simp add: rmatch_opt_part [OF assms(1)])

lemma rmatch_seconds:
  "rmatch (Seq (opt_part ''seconds'' CHR ''s'') Eol) st = rmatch Eol (take_part ''seconds'' CHR ''s'' st)"
  using take_part_eol [of "CHR ''s''" "''seconds''" st]
  by (intro seq_opt_part) auto

lemma rmatch_minutes:
  "rmatch (Seq (opt_part ''minutes'' CHR ''m'') (Seq (opt_part ''seconds'' CHR ''s'') Eol)) st =
   rmatch Eol (take_part ''seconds'' CHR ''s'' (take_part ''minutes'' CHR ''m'' st))"
proof -
  have dead: "rmatch (Seq (opt_part ''seconds'' CHR ''s'') Eol) st = []"
    if "take_part ''minutes'' CHR ''m'' st \<noteq> st"
    using take_part_other [OF that, of "CHR ''s''" "''seconds''"] take_part_eol [OF _ that]
    by (simp add: rmatch_seconds del: rmatch.simps)
  then have "take_part ''minutes'' CHR ''m'' st = st
      \<or> rmatch (Seq (opt_part ''seconds'' CHR ''s'') Eol) st = []"
    by blast
  then show ?thesis
    by (simp only: seq_opt_part [OF is_digit_simps(2)] rmatch_seconds)
qed

lemma rmatch_hours:
  "rmatch (Seq (opt_part ''hours'' CHR ''h'') (Seq (opt_part ''minutes'' CHR ''m'')
      (Seq (opt_part ''seconds'' CHR ''s'') Eol))) st =
   rmatch Eol (take_part ''seconds'' CHR ''s'' (take_part ''minutes'' CHR ''m''
      (take_part ''hours'' CHR ''h'' st)))"
proof -
  have dead: "rmatch (Seq (opt_part ''minutes'' CHR ''m'') (Seq (opt_part ''seconds'' CHR ''s'') Eol)) st = []"
    if "take_part ''hours'' CHR ''h'' st \<noteq> st"
    using take_part_other [OF that, of "CHR ''s''" "''seconds''"]
      take_part_other [OF that, of "CHR ''m''" "''minutes''"] take_part_eol [OF _ that]
    by (simp add: rmatch_minutes del: rmatch.simps)
  then have "take_part ''hours'' CHR ''h'' st = st
      \<or> rmatch (Seq (opt_part ''minutes'' CHR ''m'') (Seq (opt_part ''seconds'' CHR ''s'') Eol)) st = []"
    by blast
  then show ?thesis
    by (simp only: seq_opt_part [OF is_digit_simps(1)] rmatch_minutes)
qed

lemma re_match_time_pattern:
  "re_match time_pattern s =
     (case take_parts s of (pre, rest, g) \<Rightarrow>
        if rest = [] \<or> rest = [CHR 0x0A] then Some (pre, g) else None)"
proof -
  have "rmatch (Seq Bol X) ([], s, []) = rmatch X ([], s, [])" for X
    by simp
  then have "rmatch time_pattern ([], s, []) = rmatch Eol (take_parts s)"
    unfolding time_pattern_def take_parts_def
    by (simp only: rmatch_hours)
  then show ?thesis
    by (simp add: re_match_def split: prod.splits)
qed


lemma digits_span:
  assumes "digits ds" and "\<not> is_digit c"
  shows "takeWhile is_digit (ds @ c # r) = ds" and "dropWhile is_digit (ds @ c # r) = c # r"
  using assms by (simp_all add: digits_def list_all_iff)

lemma take_part_match:
  assumes "digits ds" and "\<not> is_digit c"
  shows "take_part n c (pre, ds @ c # r, g) = (pre @ ds @ [c], r, (n, ds) # g)"
  using assms by (simp add: take_part_def digits_span) (simp add: digits_def)

lemma take_part_skip:
  assumes "digits ds" and "\<not> is_digit c'" and "c' \<noteq> c"
  shows "take_part n c (pre, ds @ c' # r, g) = (pre, ds @ c' # r, g)"
  using assms by (simp add: take_part_def digits_span)

lemma take_part_Nil: "take_part n c (pre, [], g) = (pre, [], g)"
  by (simp add: take_part_def)

lemma py_int_digits: "digits ds \<Longrightarrow> py_int ds = Inr (int (dec_val ds))"
  by (simp add: py_int_def digits_def)

lemma parse_time_duration_string:
  assumes "part_ok h" "part_ok m" "part_ok s"
    and "0 < part_val h * 3600 + part_val m * 60 + part_val s"
  shows "parse_time (duration_string h m s) = Inr (part_val h * 3600 + part_val m * 60 + part_val s)"
proof -
  have nonempty: "digits ds \<Longrightarrow> ds \<noteq> []" for ds
    by (simp add: digits_def)
  show ?thesis
    using assms
    by (cases h; cases m; cases s)
      (simp_all add: parse_time_def re_match_time_pattern take_parts_def duration_string_def
        part_def part_ok_def part_val_def take_part_match take_part_skip take_part_Nil
        int_or_zero_def py_int_digits nonempty)
qed

section \<open>What \<open>parse_time\<close> returns on duration strings\<close>



section \<open>Every string that \<open>parse_time\<close> reads\<close>

lemma take_part_cases:
  "take_part n c (pre, rest, g) = (pre, rest, g)
   \<or> (\<exists>ds r. digits ds \<and> rest = ds @ c # r
         \<and> take_part n c (pre, rest, g) = (pre @ ds @ [c], r, (n, ds) # g))"
proof (cases "take_part n c (pre, rest, g) = (pre, rest, g)")
  case True
  then show ?thesis by simp
next
  case False
  let ?ds = "takeWhile is_digit rest" and ?r = "dropWhile is_digit rest"
  from False have m: "?ds \<noteq> []" "?r \<noteq> []" "hd ?r = c"
    by (auto simp: take_part_def Let_def split: if_splits)
  then have r: "?r = c # tl ?r"
    by (cases ?r) auto
  have "digits ?ds"
    using m(1) by (auto simp: digits_def list_all_iff dest: set_takeWhileD)
  moreover have "rest = ?ds @ c # tl ?r"
    using r takeWhile_dropWhile_id [of is_digit rest] by simp
  moreover have "take_part n c (pre, rest, g) = (pre @ ?ds @ [c], tl ?r, (n, ?ds) # g)"
    using m by (simp add: take_part_def Let_def)
  ultimately show ?thesis by blast
qed

lemma take_part_shape:
  "\<exists>d r. part_ok d \<and> rest = part d c @ r
         \<and> take_part n c (pre, rest, g) = (pre @ part d c, r, group_list n d @ g)"
  using take_part_cases [of n c pre rest g]
proof
  assume "take_part n c (pre, rest, g) = (pre, rest, g)"
  then have "part_ok None \<and> rest = part None c @ rest
         \<and> take_part n c (pre, rest, g) = (pre @ part None c, rest, group_list n None @ g)"
    by (simp add: part_ok_def part_def group_list_def)
  then show ?thesis by blast
next
  assume "\<exists>ds r. digits ds \<and> rest = ds @ c # r
         \<and> take_part n c (pre, rest, g) = (pre @ ds @ [c], r, (n, ds) # g)"
  then obtain ds r where "digits ds" "rest = ds @ c # r"
      "take_part n c (pre, rest, g) = (pre @ ds @ [c], r, (n, ds) # g)"
    by blast
  then have "part_ok (Some ds) \<and> rest = part (Some ds) c @ r
         \<and> take_part n c (pre, rest, g) = (pre @ part (Some ds) c, r, group_list n (Some ds) @ g)"
    by (simp add: part_ok_def part_def group_list_def)
  then show ?thesis by blast
qed

lemma take_parts_shape:
  "\<exists>h m s r. part_ok h \<and> part_ok m \<and> part_ok s \<and> str = duration_string h m s @ r
     \<and> take_parts str = (duration_string h m s, r,
          group_list ''seconds'' s @ group_list ''minutes'' m @ group_list ''hours'' h)"
proof -
  obtain h r1 where 1: "part_ok h" "str = part h CHR ''h'' @ r1"
      "take_part ''hours'' CHR ''h'' ([], str, []) = ([] @ part h CHR ''h'', r1, group_list ''hours'' h @ [])"
    using take_part_shape by blast
  obtain m r2 where 2: "part_ok m" "r1 = part m CHR ''m'' @ r2"
      "take_part ''minutes'' CHR ''m'' ([] @ part h CHR ''h'', r1, group_list ''hours'' h @ [])
        = (([] @ part h CHR ''h'') @ part m CHR ''m'', r2, group_list ''minutes'' m @ group_list ''hours'' h @ [])"
    using take_part_shape by blast
  obtain s r3 where 3: "part_ok s" "r2 = part s CHR ''s'' @ r3"
      "take_part ''seconds'' CHR ''s'' (([] @ part h CHR ''h'') @ part m CHR ''m'', r2,
           group_list ''minutes'' m @ group_list ''hours'' h @ [])
        = ((([] @ part h CHR ''h'') @ part m CHR ''m'') @ part s CHR ''s'', r3,
           group_list ''seconds'' s @ group_list ''minutes'' m @ group_list ''hours'' h @ [])"
    using take_part_shape by blast
  have "str = duration_string h m s @ r3"
    using 1(2) 2(2) 3(2) by (simp add: duration_string_def)
  moreover have "take_parts str = (duration_string h m s, r3,
          group_list ''seconds'' s @ group_list ''minutes'' m @ group_list ''hours'' h)"
    unfolding take_parts_def 1(3) 2(3) 3(3) by (simp add: duration_string_def)
  ultimately show ?thesis
    using 1(1) 2(1) 3(1) by blast
qed

lemma group_list_values:
  assumes "part_ok h" "part_ok m" "part_ok s"
  defines "g \<equiv> group_list ''seconds'' s @ group_list ''minutes'' m @ group_list ''hours'' h"
  shows "int_or_zero (map_of g ''hours'') = Inr (part_val h)"
    and "int_or_zero (map_of g ''minutes'') = Inr (part_val m)"
    and "int_or_zero (map_of g ''seconds'') = Inr (part_val s)"
  using assms
  by (auto simp: group_list_def part_ok_def part_val_def int_or_zero_def py_int_digits digits_def
      split: option.splits)

lemma part_val_nonneg: "0 \<le> part_val d"
  by (simp add: part_val_def split: option.splits)

lemma parse_time_shape:
  "\<exists>h m s r. part_ok h \<and> part_ok m \<and> part_ok s \<and> str = duration_string h m s @ r
     \<and> parse_time str =
         (if (r = [] \<or> r = [CHR 0x0A]) \<and> duration_string h m s \<noteq> []
          then (if part_val h * 3600 + part_val m * 60 + part_val s \<le> 0
                then Inl (ValueError (msg_no_units str))
                else Inr (part_val h * 3600 + part_val m * 60 + part_val s))
          else Inl (ValueError (msg_format str)))"
proof -
  obtain h m s r where sh: "part_ok h" "part_ok m" "part_ok s" "str = duration_string h m s @ r"
     "take_parts str = (duration_string h m s, r,
          group_list ''seconds'' s @ group_list ''minutes'' m @ group_list ''hours'' h)"
    using take_parts_shape by blast
  define g where "g = group_list ''seconds'' s @ group_list ''minutes'' m @ group_list ''hours'' h"
  have tp: "take_parts str = (duration_string h m s, r, g)"
    using sh(5) by (simp only: g_def)
  have vals: "int_or_zero (map_of g ''hours'') = Inr (part_val h)"
    "int_or_zero (map_of g ''minutes'') = Inr (part_val m)"
    "int_or_zero (map_of g ''seconds'') = Inr (part_val s)"
    unfolding g_def by (rule group_list_values [OF sh(1-3)])+
  have zero: "part_val h = 0 \<and> part_val m = 0 \<and> part_val s = 0"
    if "part_val h * 3600 + part_val m * 60 + part_val s \<le> 0"
    using that part_val_nonneg [of h] part_val_nonneg [of m] part_val_nonneg [of s] by linarith
  have "parse_time str =
         (if (r = [] \<or> r = [CHR 0x0A]) \<and> duration_string h m s \<noteq> []
          then (if part_val h * 3600 + part_val m * 60 + part_val s \<le> 0
                then Inl (ValueError (msg_no_units str))
                else Inr (part_val h * 3600 + part_val m * 60 + part_val s))
          else Inl (ValueError (msg_format str)))"
    using zero
    by (auto simp add: parse_time_def re_match_time_pattern tp vals Let_def)
  with sh(1-4) show ?thesis by blast
qed


lemma take_part_no_digit:
  assumes "\<not> is_digit x"
  shows "take_part n c (pre, x # xs, g) = (pre, x # xs, g)"
  using assms by (simp add: take_part_def)

lemma parse_time_duration_string_nl:
  assumes "part_ok h" "part_ok m" "part_ok s"
    and "0 < part_val h * 3600 + part_val m * 60 + part_val s"
  shows "parse_time (duration_string h m s @ [CHR 0x0A])
         = Inr (part_val h * 3600 + part_val m * 60 + part_val s)"
proof -
  have nonempty: "digits ds \<Longrightarrow> ds \<noteq> []" for ds
    by (simp add: digits_def)
  show ?thesis
    using assms
    by (cases h; cases m; cases s)
      (simp_all add: parse_time_def re_match_time_pattern take_parts_def duration_string_def
        part_def part_ok_def part_val_def take_part_match take_part_skip take_part_no_digit
        int_or_zero_def py_int_digits nonempty)
qed

lemma parse_time_accepts:
  "parse_time str = Inr n \<longleftrightarrow>
     (\<exists>h m s. part_ok h \<and> part_ok m \<and> part_ok s
        \<and> (str = duration_string h m s \<or> str = duration_string h m s @ [CHR 0x0A])
        \<and> n = part_val h * 3600 + part_val m * 60 + part_val s \<and> 0 < n)"
proof
  assume "parse_time str = Inr n"
  then show "\<exists>h m s. part_ok h \<and> part_ok m \<and> part_ok s
        \<and> (str = duration_string h m s \<or> str = duration_string h m s @ [CHR 0x0A])
        \<and> n = part_val h * 3600 + part_val m * 60 + part_val s \<and> 0 < n"
    using parse_time_shape [of str] by (fastforce split: if_splits)
next
  assume "\<exists>h m s. part_ok h \<and> part_ok m \<and> part_ok s
        \<and> (str = duration_string h m s \<or> str = duration_string h m s @ [CHR 0x0A])
        \<and> n = part_val h * 3600 + part_val m * 60 + part_val s \<and> 0 < n"
  then show "parse_time str = Inr n"
    using parse_time_duration_string parse_time_duration_string_nl by blast
qed

lemma parse_time_positive: "parse_time str = Inr n \<Longrightarrow> 0 < n"
  by (auto simp add: parse_time_accepts)

lemma parse_time_rejects:
  "parse_time [] = Inl (ValueError (msg_format []))"
  "parse_time ''abc'' = Inl (ValueError (msg_format ''abc''))"
  "parse_time ''30x'' = Inl (ValueError (msg_format ''30x''))"
  "parse_time ''0h0m0s'' = Inl (ValueError (msg_no_units ''0h0m0s''))"
  "parse_time ''0s'' = Inl (ValueError (msg_no_units ''0s''))"
  "parse_time ''30m1h'' = Inl (ValueError (msg_format ''30m1h''))"
  by code_simp+

lemma duration_string_last:
  "duration_string h m s = [] \<or> last (duration_string h m s) \<in> {CHR ''h'', CHR ''m'', CHR ''s''}"
  by (cases h; cases m; cases s) (simp_all add: duration_string_def part_def)

text \<open>
  C2: \<open>parse_time\<close> is to fail on every string that is not a duration string. It does fail
  on the empty string, \<open>abc\<close>, \<open>30x\<close>, \<open>0h0m0s\<close>, \<open>0s\<close> and \<open>30m1h\<close> (\<open>parse_time_rejects\<close>),
  and what it returns is positive (\<open>parse_time_positive\<close>); but \<open>$\<close> also matches before
  a newline that ends the string, so a duration string followed by one newline is
  accepted (\<open>parse_time_accepts\<close>). The string \<open>30m\<close> followed by a newline is no
  duration string, and \<open>parse_time\<close> returns 1800 on it.
\<close>

theorem parse_time_trailing_newline:
  "parse_time (''30m'' @ [CHR 0x0A]) = Inr 1800
   \<and> (\<forall>h m s. duration_string h m s \<noteq> ''30m'' @ [CHR 0x0A])"
proof -
  have "parse_time (''30m'' @ [CHR 0x0A]) = Inr 1800"
    by code_simp
  moreover have "duration_string h m s \<noteq> ''30m'' @ [CHR 0x0A]" for h m s
    using duration_string_last [of h m s] by auto
  ultimately show ?thesis by blast
qed



section \<open>The display of the remaining time\<close>

lemma digit_char_props:
  assumes "d < 10"
  shows "is_digit (digit_char d)" and "digit_val (digit_char d) = d"
  using assms by (simp_all add: is_digit_def digit_val_def digit_char_def)

lemma dec_val_snoc: "dec_val (ds @ [c]) = 10 * dec_val ds + digit_val c"
  by (simp add: dec_val_def)

lemma str_nat_digits: "digits (str_nat n)"
proof (induction n rule: str_nat.induct)
  case (1 n)
  show ?case
  proof (cases "n < 10")
    case True
    then show ?thesis
      by (subst str_nat.simps) (simp add: digits_def digit_char_props)
  next
    case False
    then have "digits (str_nat (n div 10))"
      using 1 by simp
    then show ?thesis
      using False by (subst str_nat.simps) (simp add: digits_def digit_char_props)
  qed
qed

lemma dec_val_str_nat: "dec_val (str_nat n) = n"
proof (induction n rule: str_nat.induct)
  case (1 n)
  show ?case
  proof (cases "n < 10")
    case True
    then show ?thesis
      by (subst str_nat.simps) (simp add: dec_val_def digit_char_props)
  next
    case False
    then have "dec_val (str_nat (n div 10)) = n div 10"
      using 1 by simp
    then show ?thesis
      using False by (subst str_nat.simps) (simp add: dec_val_snoc digit_char_props)
  qed
qed

lemma length_str_nat:
  "n < 10 \<Longrightarrow> length (str_nat n) = 1" "n < 100 \<Longrightarrow> length (str_nat n) \<le> 2"
proof -
  show 1: "length (str_nat n) = 1" if "n < 10" for n
    using that by (subst str_nat.simps) simp
  show "length (str_nat n) \<le> 2" if "n < 100"
  proof (cases "n < 10")
    case True
    then show ?thesis using 1 by simp
  next
    case False
    then have "n div 10 < 10" using that by simp
    then show ?thesis
      using False 1 [of "n div 10"] by (subst str_nat.simps) simp
  qed
qed

lemma dec_val_zeros: "dec_val (replicate k CHR ''0'' @ ds) = dec_val ds"
proof -
  have "foldl (\<lambda>a c. 10 * a + digit_val c) 0 (replicate k CHR ''0'') = 0"
    by (induction k) (simp_all add: digit_val_def)
  then show ?thesis
    by (simp add: dec_val_def)
qed

lemma fmt_02d_props:
  assumes "0 \<le> i"
  shows "digits (fmt_02d i)" and "int (dec_val (fmt_02d i)) = i" and "2 \<le> length (fmt_02d i)"
    and "i < 100 \<Longrightarrow> length (fmt_02d i) = 2"
proof -
  have z: "is_digit CHR ''0''"
    by (simp add: is_digit_def)
  show "digits (fmt_02d i)"
    using assms str_nat_digits [of "nat i"] z by (auto simp add: fmt_02d_def digits_def list_all_iff)
  show "int (dec_val (fmt_02d i)) = i"
    using assms by (simp add: fmt_02d_def dec_val_zeros dec_val_str_nat)
  show "2 \<le> length (fmt_02d i)"
    using assms by (simp add: fmt_02d_def)
  show "length (fmt_02d i) = 2" if "i < 100"
    using assms that length_str_nat(2) [of "nat i"] by (simp add: fmt_02d_def)
qed

lemma digits_no_newline: "digits ds \<Longrightarrow> CHR 0x0A \<notin> set ds"
  by (auto simp: digits_def list_all_iff is_digit_def)

text \<open>
  C8: for a positive value \<open>r\<close> of \<open>remaining\<close>, the pass of the loop prints
  \<open>Time remaining: HH:MM:SS\<close>, where each field is a string of decimal digits; \<open>HH\<close>
  denotes \<open>r div 3600\<close> (not reduced modulo 24) and has at least two digits (exactly two
  below 100 hours), \<open>MM\<close> denotes
  \<open>(r mod 3600) div 60\<close> and \<open>SS\<close> denotes \<open>r mod 60\<close>, both with exactly two digits. The
  text holds no newline and is printed with a carriage return as its end, so that the
  next pass overwrites it, and the flush follows at once; then the pass sleeps.
\<close>

theorem countdown_display:
  assumes "0 < r" and "py_round (end_time - tick_time w i) = r"
  shows "\<exists>hh mm ss.
           format_remaining r = hh @ '':'' @ mm @ '':'' @ ss
         \<and> digits hh \<and> digits mm \<and> digits ss
         \<and> 2 \<le> length hh \<and> length mm = 2 \<and> length ss = 2
         \<and> (r < 360000 \<longrightarrow> length hh = 2)
         \<and> int (dec_val hh) = r div 3600
         \<and> int (dec_val mm) = (r mod 3600) div 60
         \<and> int (dec_val ss) = r mod 60
         \<and> CHR 0x0A \<notin> set (''Time remaining: '' @ format_remaining r)
         \<and> countdown_loop w end_time i tr =
             (if sleep_interrupted w i
              then Some (tr @ [Print (''Time remaining: '' @ hh @ '':'' @ mm @ '':'' @ ss) [CHR 0x0D],
                               Flush, Sleep 1,
                               Print (nl @ ''Timer cancelled by user.'') nl], Inl (SystemExit 0))
              else countdown_loop w end_time (Suc i)
                     (tr @ [Print (''Time remaining: '' @ hh @ '':'' @ mm @ '':'' @ ss) [CHR 0x0D],
                            Flush, Sleep 1]))"
proof -
  let ?hh = "fmt_02d (r div 3600)" and ?mm = "fmt_02d ((r mod 3600) div 60)"
    and ?ss = "fmt_02d (r mod 60)"
  have h: "0 \<le> r div 3600" and m: "0 \<le> (r mod 3600) div 60" "(r mod 3600) div 60 < 100"
    and s: "0 \<le> r mod 60" "r mod 60 < 100"
    using assms(1) by (simp_all add: pos_imp_zdiv_nonneg_iff)
  have fmt: "format_remaining r = ?hh @ '':'' @ ?mm @ '':'' @ ?ss"
    by (simp add: format_remaining_def)
  have nonl: "CHR 0x0A \<notin> set (''Time remaining: '' @ format_remaining r)"
    using digits_no_newline [OF fmt_02d_props(1) [OF h]] digits_no_newline [OF fmt_02d_props(1) [OF m(1)]]
      digits_no_newline [OF fmt_02d_props(1) [OF s(1)]]
    by (simp add: fmt)
  have loop: "countdown_loop w end_time i tr =
             (if sleep_interrupted w i
              then Some (tr @ [Print (''Time remaining: '' @ ?hh @ '':'' @ ?mm @ '':'' @ ?ss) [CHR 0x0D],
                               Flush, Sleep 1,
                               Print (nl @ ''Timer cancelled by user.'') nl], Inl (SystemExit 0))
              else countdown_loop w end_time (Suc i)
                     (tr @ [Print (''Time remaining: '' @ ?hh @ '':'' @ ?mm @ '':'' @ ?ss) [CHR 0x0D],
                            Flush, Sleep 1]))"
    using assms by (subst countdown_loop.simps) (simp add: Let_def fmt cr_def)
  have hl: "r < 360000 \<longrightarrow> length ?hh = 2"
    using fmt_02d_props(4) [OF h] by simp
  show ?thesis
    using fmt nonl loop hl fmt_02d_props [OF h] fmt_02d_props [OF m(1)] fmt_02d_props [OF s(1)]
      m(2) s(2)
    by blast
qed

text \<open>The theorem at \<open>r = 5410\<close>, the first pass of a countdown of 5410 seconds.\<close>

theorem countdown_display_witness:
  "(0::int) < 5410 \<and> py_round (5410 - tick_time steady 0) = 5410
   \<and> (\<exists>hh mm ss.
           format_remaining 5410 = hh @ '':'' @ mm @ '':'' @ ss
         \<and> digits hh \<and> digits mm \<and> digits ss
         \<and> 2 \<le> length hh \<and> length mm = 2 \<and> length ss = 2
         \<and> (5410 < (360000::int) \<longrightarrow> length hh = 2)
         \<and> int (dec_val hh) = 5410 div 3600
         \<and> int (dec_val mm) = (5410 mod 3600) div 60
         \<and> int (dec_val ss) = 5410 mod 60
         \<and> CHR 0x0A \<notin> set (''Time remaining: '' @ format_remaining 5410)
         \<and> countdown_loop steady 5410 0 [] =
             (if sleep_interrupted steady 0
              then Some ([] @ [Print (''Time remaining: '' @ hh @ '':'' @ mm @ '':'' @ ss) [CHR 0x0D],
                               Flush, Sleep 1,
                               Print (nl @ ''Timer cancelled by user.'') nl], Inl (SystemExit 0))
              else countdown_loop steady 5410 (Suc 0)
                     ([] @ [Print (''Time remaining: '' @ hh @ '':'' @ mm @ '':'' @ ss) [CHR 0x0D],
                            Flush, Sleep 1])))"
proof -
  have h1: "(0::int) < 5410" by simp
  have h2: "py_round (5410 - tick_time steady 0) = 5410"
    by (simp add: steady_def py_round_def)
  from countdown_display [OF h1 h2, of "[]"] h1 h2 show ?thesis
    by blast
qed

section \<open>The countdown ends\<close>





section \<open>The notifier\<close>

lemma play_loop_prefix:
  assumes "\<forall>i \<in> set js. afplay w (nat i) = Completed"
  shows "play_loop w (js @ ks) =
         (concat (replicate (length js) [Call afplay_cmd, Done]) @ fst (play_loop w ks),
          snd (play_loop w ks))"
  using assms by (induction js) (simp_all add: case_prod_unfold)

lemma range_split:
  assumes "k < nat n"
  shows "[0..n - 1] = [0..int k - 1] @ int k # [int k + 1..n - 1]"
    and "length [0..int k - 1] = k"
    and "\<forall>i \<in> set [0..int k - 1]. nat i < k"
proof -
  have "[0..n - 1] = [0..int k - 1] @ [int k..n - 1]"
    using assms by (intro upto_split1) auto
  also have "[int k..n - 1] = int k # [int k + 1..n - 1]"
    using assms by (intro upto_rec1) auto
  finally show "[0..n - 1] = [0..int k - 1] @ int k # [int k + 1..n - 1]" .
  show "length [0..int k - 1] = k" by simp
  show "\<forall>i \<in> set [0..int k - 1]. nat i < k" by auto
qed

lemma play_loop_at:
  assumes "k < nat n" and "\<forall>j<k. afplay w j = Completed"
  shows "play_loop w [0..n - 1] =
         (concat (replicate k [Call afplay_cmd, Done])
            @ fst (play_loop w (int k # [int k + 1..n - 1])),
          snd (play_loop w (int k # [int k + 1..n - 1])))"
proof -
  have "\<forall>i \<in> set [0..int k - 1]. afplay w (nat i) = Completed"
    using assms(2) range_split(3) [OF assms(1)] by blast
  from play_loop_prefix [OF this, of "int k # [int k + 1..n - 1]"]
  show ?thesis
    by (simp only: range_split(1) [OF assms(1), symmetric] range_split(2) [OF assms(1)])
qed

lemma play_loop_completed:
  assumes "\<forall>j<nat n. afplay w j = Completed"
  shows "play_loop w [0..n - 1] = (concat (replicate (nat n) [Call afplay_cmd, Done]), Inr ())"
proof -
  have "\<forall>i \<in> set [0..n - 1]. afplay w (nat i) = Completed"
    using assms by auto
  from play_loop_prefix [OF this, of "[]"] show ?thesis
    by simp
qed

lemma count_calls: "count_list (concat (replicate k [Call afplay_cmd, Done])) (Call afplay_cmd) = k"
  by (induction k) simp_all

lemma str_int_10: "str_int 10 = ''10''"
  by code_simp

text \<open>
  C5: when the notifier is called with \<open>repeat_count = 10\<close> and each of the ten playbacks
  succeeds, \<open>afplay\<close> is started exactly ten times, and every start is followed by the
  end of that child before the next start: the playbacks do not overlap. The notifier
  then prints \<open>Finished playing sound.\<close> and returns.
\<close>

theorem notifier_plays_ten_times:
  assumes "\<forall>i<10. afplay w i = Completed"
  shows "play_sound_macos w 10 =
           ([Print (''Playing sound '' @ quote @ sound_file @ quote @ '' 10 times.'') nl]
              @ concat (replicate 10 [Call afplay_cmd, Done])
              @ [Print ''Finished playing sound.'' nl], Inr ())
         \<and> count_list (fst (play_sound_macos w 10)) (Call afplay_cmd) = 10"
proof -
  have "play_loop w [0..10 - 1] = (concat (replicate (nat 10) [Call afplay_cmd, Done]), Inr ())"
    using assms by (intro play_loop_completed) simp
  then have 1: "play_sound_macos w 10 =
           ([Print (''Playing sound '' @ quote @ sound_file @ quote @ '' 10 times.'') nl]
              @ concat (replicate 10 [Call afplay_cmd, Done])
              @ [Print ''Finished playing sound.'' nl], Inr ())"
    by (simp add: play_sound_macos_def str_int_10)
  have "count_list (fst (play_sound_macos w 10)) (Call afplay_cmd) = 10"
    unfolding 1 fst_conv count_list_append count_calls by simp
  with 1 show ?thesis by blast
qed

text \<open>The theorem in the steady environment.\<close>

theorem notifier_plays_ten_times_witness:
  "(\<forall>i. afplay steady i = Completed)
   \<and> play_sound_macos steady 10 =
           ([Print (''Playing sound '' @ quote @ sound_file @ quote @ '' 10 times.'') nl]
              @ concat (replicate 10 [Call afplay_cmd, Done])
              @ [Print ''Finished playing sound.'' nl], Inr ())
   \<and> count_list (fst (play_sound_macos steady 10)) (Call afplay_cmd) = 10"
proof -
  have all: "\<forall>i. afplay steady i = Completed"
    by (simp add: steady_def)
  then have h: "\<forall>i<10. afplay steady i = Completed"
    by simp
  from notifier_plays_ten_times [OF h] all show ?thesis
    by blast
qed

text \<open>
  What the notifier does when a playback fails. If the command is missing, or the child
  fails and its standard error decodes, the notifier reports it, plays no more, prints
  \<open>Finished playing sound.\<close> and returns; the process then exits with status 0. The
  notifier returns normally whenever no playback is interrupted and no standard error is
  undecodable.
\<close>

lemma play_loop_outcome:
  "snd (play_loop w js) = Inr () \<or> snd (play_loop w js) = Inl (SystemExit 0)
   \<or> (\<exists>i e m. afplay w i = Failed e (Undecodable m)
         \<and> snd (play_loop w js) = Inl (UnicodeDecodeError m))"
proof (induction js)
  case Nil
  then show ?case by simp
next
  case (Cons j js)
  show ?case
  proof (cases "afplay w (nat j)")
    case Completed
    then show ?thesis using Cons by (simp add: case_prod_unfold)
  next
    case (Failed e err)
    then show ?thesis by (cases err) (auto simp add: Let_def)
  qed simp_all
qed

lemma play_sound_macos_returns:
  assumes "\<forall>i e m. afplay w i \<noteq> Failed e (Undecodable m)" and "\<forall>i. afplay w i \<noteq> Interrupted"
  shows "\<exists>tr. play_sound_macos w n = (tr @ [Print ''Finished playing sound.'' nl], Inr ())"
proof -
  have ok: "snd (play_loop w js) = Inr ()" for js
  proof (induction js)
    case Nil
    then show ?case by simp
  next
    case (Cons j js)
    show ?case
    proof (cases "afplay w (nat j)")
      case Completed
      then show ?thesis using Cons by (simp add: case_prod_unfold)
    next
      case (Failed e err)
      then show ?thesis using assms(1) by (cases err) (auto simp add: Let_def)
    next
      case Interrupted
      then show ?thesis using assms(2) by simp
    qed simp_all
  qed
  obtain tr r where p: "play_loop w [0..n - 1] = (tr, r)"
    by (cases "play_loop w [0..n - 1]")
  with ok [of "[0..n - 1]"] have "r = Inr ()" by simp
  with p show ?thesis
    by (simp add: play_sound_macos_def Let_def)
qed

lemma play_sound_macos_finished:
  assumes "play_sound_macos w n = (tr, Inr ())"
  shows "\<exists>tr'. tr = tr' @ [Print ''Finished playing sound.'' nl]"
proof -
  obtain tr1 r where p: "play_loop w [0..n - 1] = (tr1, r)"
    by (cases "play_loop w [0..n - 1]")
  show ?thesis
    using assms p by (cases r) (auto simp add: play_sound_macos_def Let_def)
qed

lemma notifier_not_found:
  assumes "k < nat n" and "\<forall>j<k. afplay w j = Completed" and "afplay w k = NotFound"
  shows "play_sound_macos w n =
           ([Print (''Playing sound '' @ quote @ sound_file @ quote @ '' '' @ str_int n @ '' times.'') nl]
              @ concat (replicate k [Call afplay_cmd, Done])
              @ [Call afplay_cmd,
                 Print (''Error: '' @ quote @ ''afplay'' @ quote
                          @ '' command not found. Is this a macOS system?'') nl,
                 Print ''Finished playing sound.'' nl], Inr ())"
  using assms(3) by (simp add: play_sound_macos_def play_loop_at [OF assms(1,2)])

lemma notifier_failed:
  assumes "k < nat n" and "\<forall>j<k. afplay w j = Completed" and "afplay w k = Failed e (Text t)"
  shows "play_sound_macos w n =
           ([Print (''Playing sound '' @ quote @ sound_file @ quote @ '' '' @ str_int n @ '' times.'') nl]
              @ concat (replicate k [Call afplay_cmd, Done])
              @ [Call afplay_cmd, Done,
                 Print (''Error playing sound (iteration '' @ str_int (int k + 1) @ ''): '' @ e) nl,
                 Print (''Stderr: '' @ strip t) nl,
                 Print ''Finished playing sound.'' nl], Inr ())"
  using assms(3) by (simp add: play_sound_macos_def play_loop_at [OF assms(1,2)])

lemma main_after_notifier:
  assumes "parse_time d = Inr N" and "countdown w N = Some (tr1, Inr ())"
    and "play_sound_macos w 10 = (tr2, Inr ())"
  shows "main d w = Some (tr1 @ tr2, 0)"
  using assms by (simp add: main_def body_def)

text \<open>
  C6: a playback that fails is to end the repeats, be reported with the diagnostic output
  of the child, raise nothing past the notifier and leave the exit status 0. When the
  third \<open>afplay\<close> fails and its standard error is not valid UTF-8, the \<open>decode\<close> in the
  handler of \<open>CalledProcessError\<close> raises \<open>UnicodeDecodeError\<close>, which no clause of the same
  \<open>try\<close> catches. It is a \<open>ValueError\<close>, so the script reports it as an invalid duration,
  prints the usage line and exits with status 1.
\<close>

theorem notifier_failure_exit_status:
  "\<exists>tr. main ''1s'' garbled =
          Some (tr @ [Call afplay_cmd, Done,
                      Print (''Error playing sound (iteration 3): '' @ exit_status_text) nl,
                      Print (''Error: '' @ decode_text) nl, Usage], 1)"
proof -
  have "main ''1s'' garbled =
          Some ([Print ''Timer set for 1 seconds.'' nl, Print ''Time remaining: 00:00:01'' cr,
                 Flush, Sleep 1, Print (nl @ ''Time's up!'') nl,
                 Print (''Playing sound '' @ quote @ sound_file @ quote @ '' 10 times.'') nl,
                 Call afplay_cmd, Done, Call afplay_cmd, Done]
                @ [Call afplay_cmd, Done,
                      Print (''Error playing sound (iteration 3): '' @ exit_status_text) nl,
                      Print (''Error: '' @ decode_text) nl, Usage], 1)"
    by code_simp
  then show ?thesis by blast
qed

text \<open>
  C10: \<open>play_sound_macos\<close> is to return normally for every outcome of the playbacks, apart
  from the clean exit on an interrupt, and to print \<open>Finished playing sound.\<close> whenever it
  returns. In the same environment the notifier raises \<open>UnicodeDecodeError\<close> and does not
  print \<open>Finished playing sound.\<close>.
\<close>

theorem notifier_raises:
  "\<exists>tr. play_sound_macos garbled 10 = (tr, Inl (UnicodeDecodeError decode_text))
        \<and> Print ''Finished playing sound.'' nl \<notin> set tr"
proof -
  have "play_sound_macos garbled 10 =
          ([Print (''Playing sound '' @ quote @ sound_file @ quote @ '' 10 times.'') nl,
            Call afplay_cmd, Done, Call afplay_cmd, Done, Call afplay_cmd, Done,
            Print (''Error playing sound (iteration 3): '' @ exit_status_text) nl],
           Inl (UnicodeDecodeError decode_text))"
    by code_simp
  moreover have "Print ''Finished playing sound.'' nl \<notin> set
          [Print (''Playing sound '' @ quote @ sound_file @ quote @ '' 10 times.'') nl,
            Call afplay_cmd, Done, Call afplay_cmd, Done, Call afplay_cmd, Done,
            Print (''Error playing sound (iteration 3): '' @ exit_status_text) nl]"
    by code_simp
  ultimately show ?thesis by blast
qed

section \<open>Interrupts\<close>

lemma countdown_loop_cancelled:
  assumes "sleep_interrupted w k"
    and "\<forall>j. i \<le> j \<and> j < k \<longrightarrow> \<not> sleep_interrupted w j"
    and "\<forall>j. i \<le> j \<and> j \<le> k \<longrightarrow> 0 < py_round (e - tick_time w j)"
    and "i \<le> k"
  shows "\<exists>ticks. countdown_loop w e i tr =
            Some (tr @ ticks @ [Print (nl @ ''Timer cancelled by user.'') nl], Inl (SystemExit 0))
           \<and> (\<forall>ev \<in> set ticks. ev = Flush \<or> ev = Sleep 1 \<or> (\<exists>t. ev = Print t cr))"
  using assms(2-4)
proof (induction "k - i" arbitrary: i tr)
  case 0
  then have ik: "i = k" by simp
  let ?tick = "[Print (''Time remaining: '' @ format_remaining (py_round (e - tick_time w k))) cr,
                Flush, Sleep 1]"
  have "0 < py_round (e - tick_time w k)"
    using "0.prems"(2) ik by simp
  then have "countdown_loop w e k tr =
      Some (tr @ ?tick @ [Print (nl @ ''Timer cancelled by user.'') nl], Inl (SystemExit 0))"
    using assms(1) by (subst countdown_loop.simps) (simp add: Let_def)
  then show ?case
    unfolding ik by (intro exI [of _ ?tick]) simp
next
  case (Suc n)
  then have ik: "i < k" by simp
  let ?tick = "[Print (''Time remaining: '' @ format_remaining (py_round (e - tick_time w i))) cr,
                Flush, Sleep 1]"
  have r: "0 < py_round (e - tick_time w i)" and calm: "\<not> sleep_interrupted w i"
    using Suc.prems ik by simp_all
  have step: "countdown_loop w e i tr = countdown_loop w e (Suc i) (tr @ ?tick)"
    using r calm by (subst countdown_loop.simps) (simp add: Let_def)
  have "n = k - Suc i" using Suc.hyps(2) by simp
  from Suc.hyps(1) [OF this, of "tr @ ?tick"] Suc.prems ik
  obtain ticks where t: "countdown_loop w e (Suc i) (tr @ ?tick) =
            Some ((tr @ ?tick) @ ticks @ [Print (nl @ ''Timer cancelled by user.'') nl], Inl (SystemExit 0))"
      "\<forall>ev \<in> set ticks. ev = Flush \<or> ev = Sleep 1 \<or> (\<exists>t. ev = Print t cr)"
    by (metis Suc_leD Suc_leI)
  have "countdown_loop w e i tr =
            Some (tr @ (?tick @ ticks) @ [Print (nl @ ''Timer cancelled by user.'') nl], Inl (SystemExit 0))"
    using step t(1) by simp
  moreover have "\<forall>ev \<in> set (?tick @ ticks). ev = Flush \<or> ev = Sleep 1 \<or> (\<exists>t. ev = Print t cr)"
    using t(2) by auto
  ultimately show ?case by blast
qed

text \<open>
  C3: an interrupt at a blocking point ends the process with status 0 after a message of
  cancellation. If the user interrupts the \<open>k\<close>-th sleep of the countdown (no sleep before
  it is interrupted, and the loop is still running at pass \<open>k\<close>), the run consists of the
  announcement, passes of the loop, and \<open>Timer cancelled by user.\<close>: the notifier is not
  called, since no playback is started and nothing of it is printed. If the countdown
  completes and the user interrupts the \<open>k\<close>-th of the ten playbacks (those before it
  succeed), the run ends with \<open>Sound playback interrupted by user.\<close>.
\<close>

theorem interrupt_exits_cleanly:
  assumes "parse_time d = Inr N"
  shows "(\<forall>k. sleep_interrupted w k \<and> (\<forall>j<k. \<not> sleep_interrupted w j)
              \<and> (\<forall>j\<le>k. 0 < py_round (start_time w + real_of_int N - tick_time w j))
            \<longrightarrow> (\<exists>ticks. main d w =
                     Some ([Print (''Timer set for '' @ str_int N @ '' seconds.'') nl] @ ticks
                             @ [Print (nl @ ''Timer cancelled by user.'') nl], 0)
                   \<and> (\<forall>ev \<in> set ticks. ev = Flush \<or> ev = Sleep 1 \<or> (\<exists>t. ev = Print t cr))))
       \<and> (\<forall>k tr1. countdown w N = Some (tr1, Inr ()) \<and> k < 10 \<and> afplay w k = Interrupted
              \<and> (\<forall>j<k. afplay w j = Completed)
            \<longrightarrow> main d w =
                  Some (tr1 @ [Print (''Playing sound '' @ quote @ sound_file @ quote @ '' 10 times.'') nl]
                          @ concat (replicate k [Call afplay_cmd, Done])
                          @ [Call afplay_cmd, Done,
                             Print (nl @ ''Sound playback interrupted by user.'') nl], 0))"
proof (intro conjI allI impI)
  fix k
  assume a: "sleep_interrupted w k \<and> (\<forall>j<k. \<not> sleep_interrupted w j)
              \<and> (\<forall>j\<le>k. 0 < py_round (start_time w + real_of_int N - tick_time w j))"
  from countdown_loop_cancelled [of w k 0 "start_time w + real_of_int N"
      "[Print (''Timer set for '' @ str_int N @ '' seconds.'') nl]"] a
  obtain ticks where t: "countdown w N =
            Some ([Print (''Timer set for '' @ str_int N @ '' seconds.'') nl] @ ticks
                    @ [Print (nl @ ''Timer cancelled by user.'') nl], Inl (SystemExit 0))"
      "\<forall>ev \<in> set ticks. ev = Flush \<or> ev = Sleep 1 \<or> (\<exists>t. ev = Print t cr)"
    by (auto simp add: countdown_def Let_def)
  have "main d w = Some ([Print (''Timer set for '' @ str_int N @ '' seconds.'') nl] @ ticks
                             @ [Print (nl @ ''Timer cancelled by user.'') nl], 0)"
    using assms t(1) by (simp add: main_def body_def)
  with t(2) show "\<exists>ticks. main d w =
                     Some ([Print (''Timer set for '' @ str_int N @ '' seconds.'') nl] @ ticks
                             @ [Print (nl @ ''Timer cancelled by user.'') nl], 0)
                   \<and> (\<forall>ev \<in> set ticks. ev = Flush \<or> ev = Sleep 1 \<or> (\<exists>t. ev = Print t cr))"
    by blast
next
  fix k tr1
  assume a: "countdown w N = Some (tr1, Inr ()) \<and> k < 10 \<and> afplay w k = Interrupted
              \<and> (\<forall>j<k. afplay w j = Completed)"
  then have "k < nat 10" by simp
  from play_loop_at [OF this, of w] a
  have "play_loop w [0..10 - 1] =
         (concat (replicate k [Call afplay_cmd, Done])
            @ [Call afplay_cmd, Done, Print (nl @ ''Sound playback interrupted by user.'') nl],
          Inl (SystemExit 0))"
    by simp
  then have "play_sound_macos w 10 =
      ([Print (''Playing sound '' @ quote @ sound_file @ quote @ '' 10 times.'') nl]
          @ concat (replicate k [Call afplay_cmd, Done])
          @ [Call afplay_cmd, Done, Print (nl @ ''Sound playback interrupted by user.'') nl],
       Inl (SystemExit 0))"
    by (simp add: play_sound_macos_def str_int_10)
  then show "main d w =
                  Some (tr1 @ [Print (''Playing sound '' @ quote @ sound_file @ quote @ '' 10 times.'') nl]
                          @ concat (replicate k [Call afplay_cmd, Done])
                          @ [Call afplay_cmd, Done,
                             Print (nl @ ''Sound playback interrupted by user.'') nl], 0)"
    using assms a by (simp add: main_def body_def)
qed

text \<open>
  The theorem at a countdown of 3 seconds whose second sleep is interrupted, and at a
  countdown of 1 second followed by playbacks of which the third is interrupted.
\<close>

theorem interrupt_exits_cleanly_witness:
  "parse_time ''3s'' = Inr 3
   \<and> sleep_interrupted ctrl_c_in_sleep 1 \<and> \<not> sleep_interrupted ctrl_c_in_sleep 0
   \<and> 0 < py_round (start_time ctrl_c_in_sleep + real_of_int 3 - tick_time ctrl_c_in_sleep 0)
   \<and> 0 < py_round (start_time ctrl_c_in_sleep + real_of_int 3 - tick_time ctrl_c_in_sleep 1)
   \<and> (\<exists>ticks. main ''3s'' ctrl_c_in_sleep =
           Some ([Print (''Timer set for '' @ str_int 3 @ '' seconds.'') nl] @ ticks
                   @ [Print (nl @ ''Timer cancelled by user.'') nl], 0)
         \<and> (\<forall>ev \<in> set ticks. ev = Flush \<or> ev = Sleep 1 \<or> (\<exists>t. ev = Print t cr)))
   \<and> parse_time ''1s'' = Inr 1
   \<and> countdown ctrl_c_in_play 1 =
        Some ([Print ''Timer set for 1 seconds.'' nl, Print ''Time remaining: 00:00:01'' cr,
               Flush, Sleep 1, Print (nl @ ''Time's up!'') nl], Inr ())
   \<and> (2::nat) < 10 \<and> afplay ctrl_c_in_play 2 = Interrupted
   \<and> afplay ctrl_c_in_play 0 = Completed \<and> afplay ctrl_c_in_play 1 = Completed
   \<and> main ''1s'' ctrl_c_in_play =
        Some ([Print ''Timer set for 1 seconds.'' nl, Print ''Time remaining: 00:00:01'' cr,
               Flush, Sleep 1, Print (nl @ ''Time's up!'') nl]
              @ [Print (''Playing sound '' @ quote @ sound_file @ quote @ '' 10 times.'') nl]
              @ concat (replicate 2 [Call afplay_cmd, Done])
              @ [Call afplay_cmd, Done,
                 Print (nl @ ''Sound playback interrupted by user.'') nl], 0)"
proof -
  have p3: "parse_time ''3s'' = Inr 3" by code_simp
  have a1: "sleep_interrupted ctrl_c_in_sleep 1"
    and a2: "\<not> sleep_interrupted ctrl_c_in_sleep 0"
    by (simp_all add: ctrl_c_in_sleep_def steady_def)
  have a3: "0 < py_round (start_time ctrl_c_in_sleep + real_of_int 3 - tick_time ctrl_c_in_sleep 0)"
    and a4: "0 < py_round (start_time ctrl_c_in_sleep + real_of_int 3 - tick_time ctrl_c_in_sleep 1)"
    by (simp_all add: ctrl_c_in_sleep_def steady_def py_round_def)
  have a2': "\<forall>j<1. \<not> sleep_interrupted ctrl_c_in_sleep j"
    using a2 by simp
  have a3': "\<forall>j\<le>1. 0 < py_round (start_time ctrl_c_in_sleep + real_of_int 3 - tick_time ctrl_c_in_sleep j)"
  proof (intro allI impI)
    fix j :: nat
    assume "j \<le> 1"
    then have "j = 0 \<or> j = 1" by auto
    then show "0 < py_round (start_time ctrl_c_in_sleep + real_of_int 3 - tick_time ctrl_c_in_sleep j)"
      using a3 a4 by auto
  qed
  have p1: "parse_time ''1s'' = Inr 1" by code_simp
  have b1: "countdown ctrl_c_in_play 1 =
        Some ([Print ''Timer set for 1 seconds.'' nl, Print ''Time remaining: 00:00:01'' cr,
               Flush, Sleep 1, Print (nl @ ''Time's up!'') nl], Inr ())"
    by code_simp
  have b2: "(2::nat) < 10" by simp
  have b3: "afplay ctrl_c_in_play 2 = Interrupted"
    and b4: "afplay ctrl_c_in_play 0 = Completed" "afplay ctrl_c_in_play 1 = Completed"
    by (simp_all add: ctrl_c_in_play_def steady_def)
  have b4': "\<forall>j<2. afplay ctrl_c_in_play j = Completed"
    using b4 by (auto simp add: less_Suc_eq numeral_2_eq_2)
  from interrupt_exits_cleanly [OF p3, of ctrl_c_in_sleep] a1 a2' a3'
  have A: "\<exists>ticks. main ''3s'' ctrl_c_in_sleep =
           Some ([Print (''Timer set for '' @ str_int 3 @ '' seconds.'') nl] @ ticks
                   @ [Print (nl @ ''Timer cancelled by user.'') nl], 0)
         \<and> (\<forall>ev \<in> set ticks. ev = Flush \<or> ev = Sleep 1 \<or> (\<exists>t. ev = Print t cr))"
    by blast
  from interrupt_exits_cleanly [OF p1, of ctrl_c_in_play] b1 b2 b3 b4'
  have B: "main ''1s'' ctrl_c_in_play =
        Some ([Print ''Timer set for 1 seconds.'' nl, Print ''Time remaining: 00:00:01'' cr,
               Flush, Sleep 1, Print (nl @ ''Time's up!'') nl]
              @ [Print (''Playing sound '' @ quote @ sound_file @ quote @ '' 10 times.'') nl]
              @ concat (replicate 2 [Call afplay_cmd, Done])
              @ [Call afplay_cmd, Done,
                 Print (nl @ ''Sound playback interrupted by user.'') nl], 0)"
    by blast
  from p3 a1 a2 a3 a4 A p1 b1 b2 b3 b4 B show ?thesis
    by blast
qed

section \<open>Rejected durations\<close>



end
